theory Spec2Isabelle
  imports Complex_Main
begin

section \<open>Python values used by the filter scripts\<close>

text \<open>
  The two scripts \<^verbatim>\<open>src/data/filter_no_text.py\<close> (three-way classifier and its driver)
  and \<^verbatim>\<open>src/filter_no_text.py\<close> (two-way classifier and its driver) are embedded here.

  Numbers: Python's unbounded \<^verbatim>\<open>int\<close> is \<^typ>\<open>int\<close>; the image dimensions read from
  \<^verbatim>\<open>arr.shape\<close> are \<^typ>\<open>nat\<close>; coordinates, areas and ratios are Python numbers
  taken in exact arithmetic (\<^typ>\<open>rat\<close>), so a threshold written \<^verbatim>\<open>0.10\<close> is the
  rational one tenth. A recognised string is a \<^typ>\<open>string\<close>, one \<^typ>\<open>char\<close> per
  character counted by \<^verbatim>\<open>len\<close>.

  Exceptions are values: \<^verbatim>\<open>min\<close> and \<^verbatim>\<open>max\<close> of an empty list raise
  \<^verbatim>\<open>ValueError\<close>, a true division by zero raises \<^verbatim>\<open>ZeroDivisionError\<close>,
  and \<^verbatim>\<open>OSError\<close> stands for the failures of the file system and of the image
  decoder (a file that \<^verbatim>\<open>shutil.copy2\<close> cannot read, an image whose pixels
  \<^verbatim>\<open>convert\<close> cannot load).
\<close>

datatype error = ValueError | ZeroDivisionError | OSError

definition py_min :: "rat list \<Rightarrow> error + rat" where
  "py_min xs = (case xs of [] \<Rightarrow> Inl ValueError | x # r \<Rightarrow> Inr (fold min r x))"

definition py_max :: "rat list \<Rightarrow> error + rat" where
  "py_max xs = (case xs of [] \<Rightarrow> Inl ValueError | x # r \<Rightarrow> Inr (fold max r x))"

definition py_truediv :: "rat \<Rightarrow> rat \<Rightarrow> error + rat" where
  "py_truediv a b = (if b = 0 then Inl ZeroDivisionError else Inr (a / b))"

text \<open>Sequencing: an exception raised by the first computation ends the second.\<close>

definition bind_err :: "error + 'a \<Rightarrow> ('a \<Rightarrow> error + 'b) \<Rightarrow> error + 'b" where
  "bind_err m f = (case m of Inl e \<Rightarrow> Inl e | Inr x \<Rightarrow> f x)"

section \<open>Data model\<close>

text \<open>
  One OCR result is the tuple \<^verbatim>\<open>(bbox, text, confidence)\<close> returned by
  \<^verbatim>\<open>reader.readtext\<close>: a list of points, the recognised string and a score.
\<close>

type_synonym point = "rat \<times> rat"

datatype detection = Detection (bbox: "point list") (det_text: string) (conf: rat)

text \<open>The three strings returned by \<^verbatim>\<open>classify_text_type\<close>.\<close>

datatype verdict = none | overlay | meme

text \<open>
  The module-level constants of \<^verbatim>\<open>src/data/filter_no_text.py\<close>, gathered in one
  configuration value; \<open>defaults\<close> holds the values written in the script.
\<close>

record thresholds =
  MIN_TOTAL_CHARS :: int
  MAX_OVERLAY_TOTAL_AREA_RATIO :: rat
  MAX_OVERLAY_REGION_AREA_RATIO :: rat
  MEME_MIN_REGION_AREA_RATIO :: rat
  MEME_MIN_WIDTH_RATIO :: rat
  MEME_MIN_TOTAL_AREA_RATIO :: rat
  MEME_MIN_TOTAL_CHARS :: int

definition defaults :: thresholds where
  "defaults =
     \<lparr> MIN_TOTAL_CHARS = 3,
       MAX_OVERLAY_TOTAL_AREA_RATIO = 8 / 100,
       MAX_OVERLAY_REGION_AREA_RATIO = 4 / 100,
       MEME_MIN_REGION_AREA_RATIO = 10 / 100,
       MEME_MIN_WIDTH_RATIO = 7 / 10,
       MEME_MIN_TOTAL_AREA_RATIO = 20 / 100,
       MEME_MIN_TOTAL_CHARS = 25 \<rparr>"

section \<open>The three-way classifier\<close>

text \<open>
  \<^verbatim>\<open>total_chars = sum(len(text) for (_, text, _) in results)\<close>: the sum starts at 0
  and adds the lengths from left to right.
\<close>

definition total_chars :: "detection list \<Rightarrow> int" where
  "total_chars results = fold (\<lambda>d s. s + int (length (det_text d))) results 0"

text \<open>The three variables the loop over \<^verbatim>\<open>results\<close> updates.\<close>

record aggregates =
  total_text_area :: rat
  max_region_area_ratio :: rat
  max_region_width_ratio :: rat

text \<open>
  Lines 64 to 71: the axis-aligned box of the points of one detection, as the width,
  the height and the area that the loop computes from \<^verbatim>\<open>min\<close> and
  \<^verbatim>\<open>max\<close> of the x and of the y coordinates.
\<close>

definition region_box :: "detection \<Rightarrow> error + (rat \<times> rat \<times> rat)" where
  "region_box d =
     (let xs = map fst (bbox d); ys = map snd (bbox d) in
      bind_err (py_min xs) (\<lambda>min_x.
      bind_err (py_max xs) (\<lambda>max_x.
      bind_err (py_min ys) (\<lambda>min_y.
      bind_err (py_max ys) (\<lambda>max_y.
        let width = max_x - min_x; height = max_y - min_y; area = width * height in
        Inr (width, height, area))))))"

text \<open>
  One iteration of the loop (lines 63 to 81): the box, the \<^verbatim>\<open>continue\<close> on a
  non-positive area, then the two ratios and the three updates. \<open>w\<close> and \<open>h\<close> are
  the image's width and height; \<^verbatim>\<open>img_area = float(w * h)\<close>.
\<close>

definition loop_body :: "nat \<Rightarrow> nat \<Rightarrow> aggregates \<Rightarrow> detection \<Rightarrow> error + aggregates" where
  "loop_body w h a d =
     bind_err (region_box d) (\<lambda>(width, height, area).
       if area \<le> 0 then Inr a
       else
         bind_err (py_truediv area (of_nat (w * h))) (\<lambda>area_ratio.
         bind_err (py_truediv width (of_nat w)) (\<lambda>width_ratio.
           Inr \<lparr> total_text_area = total_text_area a + area,
                 max_region_area_ratio = max (max_region_area_ratio a) area_ratio,
                 max_region_width_ratio = max (max_region_width_ratio a) width_ratio \<rparr>)))"

fun region_loop :: "nat \<Rightarrow> nat \<Rightarrow> detection list \<Rightarrow> aggregates \<Rightarrow> error + aggregates" where
  "region_loop w h [] a = Inr a"
| "region_loop w h (d # ds) a =
     bind_err (loop_body w h a d) (\<lambda>a'. region_loop w h ds a')"

text \<open>
  Lines 59 to 83: the loop from the three zeros, then
  \<^verbatim>\<open>total_area_ratio = total_text_area / img_area\<close>. The result pairs the final
  aggregates with \<open>total_area_ratio\<close>.
\<close>

definition zero_aggregates :: aggregates where
  "zero_aggregates =
     \<lparr> total_text_area = 0, max_region_area_ratio = 0, max_region_width_ratio = 0 \<rparr>"

definition compute_metrics :: "nat \<Rightarrow> nat \<Rightarrow> detection list \<Rightarrow> error + (aggregates \<times> rat)" where
  "compute_metrics w h results =
     bind_err (region_loop w h results zero_aggregates) (\<lambda>a.
     bind_err (py_truediv (total_text_area a) (of_nat (w * h))) (\<lambda>total_area_ratio.
       Inr (a, total_area_ratio)))"

text \<open>The two tests of lines 87 to 102, on the computed numbers.\<close>

definition meme_test :: "thresholds \<Rightarrow> int \<Rightarrow> aggregates \<Rightarrow> rat \<Rightarrow> bool" where
  "meme_test T chars a total_area_ratio \<longleftrightarrow>
     max_region_area_ratio a \<ge> MEME_MIN_REGION_AREA_RATIO T
     \<or> max_region_width_ratio a \<ge> MEME_MIN_WIDTH_RATIO T
     \<or> total_area_ratio \<ge> MEME_MIN_TOTAL_AREA_RATIO T
     \<or> chars \<ge> MEME_MIN_TOTAL_CHARS T"

definition overlay_test :: "thresholds \<Rightarrow> aggregates \<Rightarrow> rat \<Rightarrow> bool" where
  "overlay_test T a total_area_ratio \<longleftrightarrow>
     total_area_ratio \<le> MAX_OVERLAY_TOTAL_AREA_RATIO T
     \<and> max_region_area_ratio a \<le> MAX_OVERLAY_REGION_AREA_RATIO T"

text \<open>
  \<^verbatim>\<open>classify_text_type\<close> from the point where \<^verbatim>\<open>results\<close>, \<open>w\<close> and \<open>h\<close> are
  known (the image conversion and the OCR call are outside the model): the two early
  returns, the metrics, the meme test, the overlay test and the fallback.
\<close>

definition classify_text_type :: "thresholds \<Rightarrow> detection list \<Rightarrow> nat \<Rightarrow> nat \<Rightarrow> error + verdict" where
  "classify_text_type T results w h =
     (if results = [] then Inr none
      else if total_chars results < MIN_TOTAL_CHARS T then Inr none
      else
        bind_err (compute_metrics w h results) (\<lambda>(a, total_area_ratio).
          if meme_test T (total_chars results) a total_area_ratio then Inr meme
          else if overlay_test T a total_area_ratio then Inr overlay
          else Inr meme))"

section \<open>The two-way classifier\<close>

text \<open>
  \<^verbatim>\<open>has_text_easyocr\<close> of \<^verbatim>\<open>src/filter_no_text.py\<close>, with that module's
  \<^verbatim>\<open>MIN_TOTAL_CHARS\<close> as the first argument (3 in the script).
\<close>

definition has_text_easyocr :: "int \<Rightarrow> detection list \<Rightarrow> bool" where
  "has_text_easyocr min_total_chars results \<longleftrightarrow> total_chars results \<ge> min_total_chars"

section \<open>The triage drivers\<close>

text \<open>
  An image as \<^verbatim>\<open>Image.open\<close> returns it. Opening reads the header only; the pixels
  are loaded by \<^verbatim>\<open>ImageOps.exif_transpose(img).convert("RGB")\<close>, the first line of
  both classifiers, which raises on an image that cannot be decoded. A decoded image is
  known here by the OCR results and the dimensions read from it.
\<close>

datatype image =
  Undecodable
| Decoded (img_results: "detection list") (img_w: nat) (img_h: nat)

text \<open>
  \<^verbatim>\<open>classify_text_type(img, reader)\<close> and \<^verbatim>\<open>has_text_easyocr(img, reader)\<close> as
  the drivers call them, from their first line on.
\<close>

definition classify_opened :: "thresholds \<Rightarrow> image \<Rightarrow> error + verdict" where
  "classify_opened T img =
     (case img of
        Undecodable \<Rightarrow> Inl OSError
      | Decoded results w h \<Rightarrow> classify_text_type T results w h)"

definition has_text_opened :: "int \<Rightarrow> image \<Rightarrow> error + bool" where
  "has_text_opened min_total_chars img =
     (case img of
        Undecodable \<Rightarrow> Inl OSError
      | Decoded results w h \<Rightarrow> Inr (has_text_easyocr min_total_chars results))"

text \<open>
  What the drivers see of one candidate path: \<^verbatim>\<open>img_path.name\<close>; what
  \<^verbatim>\<open>shutil.copy2\<close> reads from it, the bytes and metadata (any type \<open>'c\<close>), or
  \<open>None\<close> when the file cannot be read and the copy raises; and what
  \<^verbatim>\<open>Image.open(img_path)\<close> gives, \<open>None\<close> when it raises.
\<close>

record 'c src_file =
  name :: string
  contents :: "'c option"
  opened :: "image option"

text \<open>
  A directory maps the file names it holds to their contents.
  \<^verbatim>\<open>if not out_path.exists(): shutil.copy2(img_path, out_path)\<close>: nothing is
  read when the name exists; otherwise the copy is made, or raises.
\<close>

definition copy_if_absent ::
  "(string \<rightharpoonup> 'c) \<Rightarrow> string \<Rightarrow> 'c option \<Rightarrow> error + (string \<rightharpoonup> 'c)" where
  "copy_if_absent dir n c =
     (case dir n of
        Some old \<Rightarrow> Inr dir
      | None \<Rightarrow> (case c of None \<Rightarrow> Inl OSError | Some b \<Rightarrow> Inr (dir(n \<mapsto> b))))"

subsection \<open>\<^verbatim>\<open>main\<close> of \<^verbatim>\<open>src/data/filter_no_text.py\<close>\<close>

record 'c state =
  DST_DIR :: "string \<rightharpoonup> 'c"
  REJECTED_DIR :: "string \<rightharpoonup> 'c"
  num_kept :: nat
  num_rejected :: nat

text \<open>
  One iteration of the loop over \<^verbatim>\<open>all_paths\<close> (lines 127 to 152). Only
  \<^verbatim>\<open>Image.open\<close> is inside the \<^verbatim>\<open>try\<close>: an exception of the copy in the
  \<^verbatim>\<open>except\<close> branch, of \<^verbatim>\<open>classify_text_type\<close> or of the two later copies
  leaves the loop. Each counter is incremented after its copy.
\<close>

definition main_step :: "thresholds \<Rightarrow> 'c state \<Rightarrow> 'c src_file \<Rightarrow> error + 'c state" where
  "main_step T s img_path =
     (case opened img_path of
        None \<Rightarrow>
          bind_err (copy_if_absent (REJECTED_DIR s) (name img_path) (contents img_path))
            (\<lambda>rej. Inr (s\<lparr> REJECTED_DIR := rej, num_rejected := num_rejected s + 1 \<rparr>))
      | Some img \<Rightarrow>
          bind_err (classify_opened T img)
            (\<lambda>text_type.
               if text_type = none \<or> text_type = overlay
               then
                 bind_err (copy_if_absent (DST_DIR s) (name img_path) (contents img_path))
                   (\<lambda>dst. Inr (s\<lparr> DST_DIR := dst, num_kept := num_kept s + 1 \<rparr>))
               else
                 bind_err (copy_if_absent (REJECTED_DIR s) (name img_path) (contents img_path))
                   (\<lambda>rej. Inr (s\<lparr> REJECTED_DIR := rej,
                                   num_rejected := num_rejected s + 1 \<rparr>))))"

fun main_loop :: "thresholds \<Rightarrow> 'c src_file list \<Rightarrow> 'c state \<Rightarrow> error + 'c state" where
  "main_loop T [] s = Inr s"
| "main_loop T (p # ps) s = bind_err (main_step T s p) (\<lambda>s'. main_loop T ps s')"

text \<open>
  A run over the candidate paths \<^verbatim>\<open>all_paths\<close> (the image files found under
  \<^verbatim>\<open>SRC_DIR\<close>, which neither destination directory lies in), from the two
  directories as they are found and both counters at 0; the result holds the
  directories and the two printed counts, or the exception that ended the run.
\<close>

definition main ::
  "thresholds \<Rightarrow> 'c src_file list \<Rightarrow> (string \<rightharpoonup> 'c) \<Rightarrow> (string \<rightharpoonup> 'c) \<Rightarrow> error + 'c state" where
  "main T all_paths dst rej =
     main_loop T all_paths
       \<lparr> DST_DIR = dst, REJECTED_DIR = rej, num_kept = 0, num_rejected = 0 \<rparr>"

subsection \<open>\<^verbatim>\<open>main\<close> of \<^verbatim>\<open>src/filter_no_text.py\<close>\<close>

text \<open>
  The two-way script has one destination directory and the same two counters; its
  fields carry the suffix \<open>2\<close>. A rejected file is counted and not copied, so its
  \<^verbatim>\<open>except\<close> branch (lines 55 to 58) cannot raise; \<^verbatim>\<open>has_text_easyocr\<close> and
  the copy of a kept file are outside the \<^verbatim>\<open>try\<close>.
\<close>

record 'c state2 =
  DST_DIR2 :: "string \<rightharpoonup> 'c"
  num_kept2 :: nat
  num_rejected2 :: nat

definition main_step2 :: "int \<Rightarrow> 'c state2 \<Rightarrow> 'c src_file \<Rightarrow> error + 'c state2" where
  "main_step2 min_total_chars s img_path =
     (case opened img_path of
        None \<Rightarrow> Inr (s\<lparr> num_rejected2 := num_rejected2 s + 1 \<rparr>)
      | Some img \<Rightarrow>
          bind_err (has_text_opened min_total_chars img)
            (\<lambda>has_text.
               if has_text then Inr (s\<lparr> num_rejected2 := num_rejected2 s + 1 \<rparr>)
               else
                 bind_err (copy_if_absent (DST_DIR2 s) (name img_path) (contents img_path))
                   (\<lambda>dst. Inr (s\<lparr> DST_DIR2 := dst, num_kept2 := num_kept2 s + 1 \<rparr>))))"

fun main_loop2 :: "int \<Rightarrow> 'c src_file list \<Rightarrow> 'c state2 \<Rightarrow> error + 'c state2" where
  "main_loop2 m [] s = Inr s"
| "main_loop2 m (p # ps) s = bind_err (main_step2 m s p) (\<lambda>s'. main_loop2 m ps s')"

definition main2 :: "int \<Rightarrow> 'c src_file list \<Rightarrow> (string \<rightharpoonup> 'c) \<Rightarrow> error + 'c state2" where
  "main2 m all_paths dst =
     main_loop2 m all_paths \<lparr> DST_DIR2 = dst, num_kept2 = 0, num_rejected2 = 0 \<rparr>"

section \<open>Sequencing and the bounding box\<close>

lemma bind_err_Inr [simp]: "bind_err (Inr x) f = f x"
  by (simp add: bind_err_def)

lemma bind_err_Inl [simp]: "bind_err (Inl e) f = Inl e"
  by (simp add: bind_err_def)

lemma bind_err_eq_Inr: "bind_err m f = Inr y \<longleftrightarrow> (\<exists>x. m = Inr x \<and> f x = Inr y)"
  by (cases m) simp_all

lemma region_loop_append:
  "region_loop w h (xs @ ys) a = bind_err (region_loop w h xs a) (region_loop w h ys)"
  by (induction xs arbitrary: a) (simp_all add: bind_err_def split: sum.splits)

lemma fold_min_le: "fold min r (x::rat) \<le> x"
proof (induction r arbitrary: x)
  case Nil show ?case by simp
next
  case (Cons y r)
  have "fold min r (min y x) \<le> min y x" by (rule Cons.IH)
  also have "\<dots> \<le> x" by simp
  finally show ?case by simp
qed

lemma fold_max_ge: "(x::rat) \<le> fold max r x"
proof (induction r arbitrary: x)
  case Nil show ?case by simp
next
  case (Cons y r)
  have "x \<le> max y x" by simp
  also have "\<dots> \<le> fold max r (max y x)" by (rule Cons.IH)
  finally show ?case by simp
qed

lemma fold_min_le_max: "fold min r (x::rat) \<le> fold max r x"
  by (rule order_trans[OF fold_min_le fold_max_ge])

lemma region_box_Nil: "bbox d = [] \<Longrightarrow> region_box d = Inl ValueError"
  by (simp add: region_box_def py_min_def)

lemma region_box_nonempty:
  assumes "bbox d \<noteq> []"
  shows "\<exists>wd ht. region_box d = Inr (wd, ht, wd * ht) \<and> 0 \<le> wd \<and> 0 \<le> ht"
proof -
  from assms obtain p ps where b: "bbox d = p # ps" by (cases "bbox d") auto
  show ?thesis
    by (simp add: region_box_def py_min_def py_max_def b fold_min_le_max Let_def)
qed

lemma region_box_Inr:
  "region_box d = Inr (wd, ht, ar) \<Longrightarrow> bbox d \<noteq> [] \<and> ar = wd * ht \<and> 0 \<le> wd \<and> 0 \<le> ht"
proof -
  assume a: "region_box d = Inr (wd, ht, ar)"
  have ne: "bbox d \<noteq> []"
  proof
    assume "bbox d = []"
    from region_box_Nil[OF this] a show False by simp
  qed
  from region_box_nonempty[OF ne] a ne show ?thesis by auto
qed

lemma loop_body_degenerate:
  "region_box d = Inr (wd, ht, ar) \<Longrightarrow> ar \<le> 0 \<Longrightarrow> loop_body w h a d = Inr a"
  by (simp add: loop_body_def)

lemma loop_body_positive:
  assumes "0 < w" "0 < h" "region_box d = Inr (wd, ht, ar)" "0 < ar"
  shows "loop_body w h a d =
           Inr \<lparr> total_text_area = total_text_area a + ar,
                 max_region_area_ratio = max (max_region_area_ratio a) (ar / of_nat (w * h)),
                 max_region_width_ratio = max (max_region_width_ratio a) (wd / of_nat w) \<rparr>"
  using assms by (simp add: loop_body_def py_truediv_def)

lemma loop_body_zero_area:
  assumes "w * h = 0" "bbox d \<noteq> []"
  shows "loop_body w h a d = Inr a \<or> loop_body w h a d = Inl ZeroDivisionError"
proof -
  from region_box_nonempty[OF assms(2)] obtain wd ht where
    b: "region_box d = Inr (wd, ht, wd * ht)" by blast
  show ?thesis using assms(1) by (simp add: loop_body_def b py_truediv_def)
qed

text \<open>Componentwise order on the loop's variables.\<close>

lemma loop_body_grows:
  assumes "0 < w" "0 < h" "bbox d \<noteq> []"
  shows "\<exists>a'. loop_body w h a d = Inr a'
            \<and> total_text_area a \<le> total_text_area a'
            \<and> max_region_area_ratio a \<le> max_region_area_ratio a'
            \<and> max_region_width_ratio a \<le> max_region_width_ratio a'"
proof -
  from region_box_nonempty[OF assms(3)] obtain wd ht where
    b: "region_box d = Inr (wd, ht, wd * ht)" by blast
  show ?thesis
  proof (cases "wd * ht \<le> 0")
    case True
    then show ?thesis by (simp add: loop_body_degenerate[OF b])
  next
    case False
    then have "0 < wd * ht" by simp
    from loop_body_positive[OF assms(1,2) b this] False show ?thesis by simp
  qed
qed

lemma region_loop_total:
  assumes "0 < w" "0 < h" "\<forall>d\<in>set ds. bbox d \<noteq> []"
  shows "\<exists>a'. region_loop w h ds a = Inr a'"
  using assms(3)
proof (induction ds arbitrary: a)
  case Nil
  show ?case by simp
next
  case (Cons d ds)
  then have "bbox d \<noteq> []" by simp
  from loop_body_grows[OF assms(1,2) this] obtain a1 where "loop_body w h a d = Inr a1" by blast
  with Cons show ?case by simp
qed

lemma region_loop_zero_area:
  assumes "w * h = 0" "\<forall>d\<in>set ds. bbox d \<noteq> []"
  shows "region_loop w h ds a = Inr a \<or> region_loop w h ds a = Inl ZeroDivisionError"
  using assms(2)
proof (induction ds)
  case Nil
  show ?case by simp
next
  case (Cons d ds)
  then have "bbox d \<noteq> []" by simp
  from loop_body_zero_area[OF assms(1) this, of a] Cons show ?case by auto
qed

lemma compute_metrics_zero_area:
  assumes "w * h = 0" "\<forall>d\<in>set ds. bbox d \<noteq> []"
  shows "compute_metrics w h ds = Inl ZeroDivisionError"
  using region_loop_zero_area[OF assms, of zero_aggregates] assms(1)
  by (auto simp: compute_metrics_def py_truediv_def)

lemma compute_metrics_total:
  assumes "0 < w" "0 < h" "\<forall>d\<in>set ds. bbox d \<noteq> []"
  shows "\<exists>a r. compute_metrics w h ds = Inr (a, r)"
proof -
  from region_loop_total[OF assms] obtain a where "region_loop w h ds zero_aggregates = Inr a"
    by blast
  with assms(1,2) show ?thesis by (simp add: compute_metrics_def py_truediv_def)
qed

section \<open>Character count\<close>

lemma fold_chars_shift:
  "fold (\<lambda>d s. s + int (length (det_text d))) ds c = c + (\<Sum>d\<leftarrow>ds. int (length (det_text d)))"
  by (induction ds arbitrary: c) simp_all

lemma total_chars_sum: "total_chars ds = (\<Sum>d\<leftarrow>ds. int (length (det_text d)))"
  by (simp add: total_chars_def fold_chars_shift)

lemma total_chars_append: "total_chars (xs @ ys) = total_chars xs + total_chars ys"
  by (simp add: total_chars_sum)

lemma total_chars_Cons: "total_chars (d # ds) = int (length (det_text d)) + total_chars ds"
  by (simp add: total_chars_sum)

lemma total_chars_Nil: "total_chars [] = 0"
  by (simp add: total_chars_sum)

section \<open>The classifier on its metrics\<close>

lemma classify_on_metrics:
  assumes "results \<noteq> []" "MIN_TOTAL_CHARS T \<le> total_chars results"
    "compute_metrics w h results = Inr (a, r)"
  shows "classify_text_type T results w h =
           Inr (if meme_test T (total_chars results) a r then meme
                else if overlay_test T a r then overlay else meme)"
  using assms by (simp add: classify_text_type_def)

lemma classify_early:
  "results = [] \<or> total_chars results < MIN_TOTAL_CHARS T \<Longrightarrow>
     classify_text_type T results w h = Inr none"
  by (auto simp: classify_text_type_def)

lemma classify_meme_iff:
  "classify_text_type T ds w h = Inr meme \<longleftrightarrow>
     ds \<noteq> [] \<and> MIN_TOTAL_CHARS T \<le> total_chars ds \<and>
     (\<exists>a r. compute_metrics w h ds = Inr (a, r) \<and>
        (meme_test T (total_chars ds) a r \<or> \<not> overlay_test T a r))"
  by (cases "compute_metrics w h ds")
     (auto simp: classify_text_type_def split: if_splits)

lemma region_loop_grows:
  assumes "0 < w" "0 < h" "\<forall>d\<in>set ds. bbox d \<noteq> []"
  shows "\<exists>a'. region_loop w h ds a = Inr a'
            \<and> total_text_area a \<le> total_text_area a'
            \<and> max_region_area_ratio a \<le> max_region_area_ratio a'
            \<and> max_region_width_ratio a \<le> max_region_width_ratio a'"
  using assms(3)
proof (induction ds arbitrary: a)
  case Nil
  show ?case by simp
next
  case (Cons d ds)
  then have "bbox d \<noteq> []" by simp
  from loop_body_grows[OF assms(1,2) this, of a] obtain a1 where
    a1: "loop_body w h a d = Inr a1" "total_text_area a \<le> total_text_area a1"
      "max_region_area_ratio a \<le> max_region_area_ratio a1"
      "max_region_width_ratio a \<le> max_region_width_ratio a1" by blast
  from Cons have "\<forall>d\<in>set ds. bbox d \<noteq> []" by simp
  from Cons.IH[OF this, of a1] obtain a2 where
    a2: "region_loop w h ds a1 = Inr a2" "total_text_area a1 \<le> total_text_area a2"
      "max_region_area_ratio a1 \<le> max_region_area_ratio a2"
      "max_region_width_ratio a1 \<le> max_region_width_ratio a2" by blast
  from a1 a2 show ?case by simp
qed

lemma region_loop_covers:
  assumes "0 < w" "0 < h" "\<forall>d\<in>set ds. bbox d \<noteq> []"
    "d \<in> set ds" "region_box d = Inr (wd, ht, ar)" "0 < ar"
  shows "\<exists>a'. region_loop w h ds a = Inr a' \<and> ar / of_nat (w * h) \<le> max_region_area_ratio a'"
  using assms(3,4)
proof (induction ds arbitrary: a)
  case Nil
  then show ?case by simp
next
  case (Cons x ds)
  from Cons.prems have ne: "\<forall>d\<in>set ds. bbox d \<noteq> []" and nx: "bbox x \<noteq> []" by simp_all
  show ?case
  proof (cases "x = d")
    case True
    let ?a1 = "\<lparr> total_text_area = total_text_area a + ar,
                 max_region_area_ratio = max (max_region_area_ratio a) (ar / of_nat (w * h)),
                 max_region_width_ratio = max (max_region_width_ratio a) (wd / of_nat w) \<rparr>"
    have s1: "loop_body w h a x = Inr ?a1"
      unfolding True by (rule loop_body_positive[OF assms(1,2,5,6)])
    from region_loop_grows[OF assms(1,2) ne, of ?a1] obtain a2 where
      "region_loop w h ds ?a1 = Inr a2" "max_region_area_ratio ?a1 \<le> max_region_area_ratio a2"
      by blast
    with s1 show ?thesis by simp
  next
    case False
    with Cons.prems have "d \<in> set ds" by simp
    from loop_body_grows[OF assms(1,2) nx, of a] obtain a1 where "loop_body w h a x = Inr a1"
      by blast
    with Cons.IH[OF ne \<open>d \<in> set ds\<close>, of a1] show ?thesis by simp
  qed
qed

lemma tests_monotone:
  assumes "meme_test T c a r \<or> \<not> overlay_test T a r"
    "c \<le> c'" "r \<le> r'"
    "max_region_area_ratio a \<le> max_region_area_ratio a'"
    "max_region_width_ratio a \<le> max_region_width_ratio a'"
  shows "meme_test T c' a' r' \<or> \<not> overlay_test T a' r'"
  using assms unfolding meme_test_def overlay_test_def by linarith

lemma append_keeps_meme:
  assumes "0 < w" "0 < h" "classify_text_type T ds w h = Inr meme" "bbox d \<noteq> []"
  shows "classify_text_type T (ds @ [d]) w h = Inr meme"
proof -
  from assms(3) obtain a r where
    ne: "ds \<noteq> []" and ch: "MIN_TOTAL_CHARS T \<le> total_chars ds"
    and cm: "compute_metrics w h ds = Inr (a, r)"
    and ts: "meme_test T (total_chars ds) a r \<or> \<not> overlay_test T a r"
    unfolding classify_meme_iff by blast
  have area: "(0::rat) < of_nat (w * h)" using assms(1,2) by simp
  from cm have rl: "region_loop w h ds zero_aggregates = Inr a"
    and r: "r = total_text_area a / of_nat (w * h)"
    using assms(1,2) by (auto simp: compute_metrics_def bind_err_eq_Inr py_truediv_def)
  from loop_body_grows[OF assms(1,2,4), of a] obtain a' where
    a': "loop_body w h a d = Inr a'" "total_text_area a \<le> total_text_area a'"
      "max_region_area_ratio a \<le> max_region_area_ratio a'"
      "max_region_width_ratio a \<le> max_region_width_ratio a'" by blast
  let ?r' = "total_text_area a' / of_nat (w * h)"
  have cm': "compute_metrics w h (ds @ [d]) = Inr (a', ?r')"
    using assms(1,2) by (simp add: compute_metrics_def region_loop_append rl a' py_truediv_def)
  have rr: "r \<le> ?r'" unfolding r using a'(2) area by (simp add: divide_right_mono)
  have cc: "total_chars ds \<le> total_chars (ds @ [d])"
    by (simp add: total_chars_append total_chars_Cons total_chars_Nil)
  from tests_monotone[OF ts cc rr a'(3,4)]
  have ts': "meme_test T (total_chars (ds @ [d])) a' ?r' \<or> \<not> overlay_test T a' ?r'" .
  from ch cc have ch': "MIN_TOTAL_CHARS T \<le> total_chars (ds @ [d])" by simp
  show ?thesis unfolding classify_meme_iff using ch' cm' ts' by blast
qed

section \<open>Claims about the classifiers\<close>

text \<open>
  C2. Whatever the thresholds and the image dimensions (positive or not), an empty
  detection list, or one whose texts have fewer than \<open>MIN_TOTAL_CHARS\<close> characters
  in total, is classified \<open>none\<close>; the regions are not looked at.
\<close>

theorem no_text_is_none:
  assumes "results = [] \<or> (\<Sum>d\<leftarrow>results. int (length (det_text d))) < MIN_TOTAL_CHARS T"
  shows "classify_text_type T results w h = Inr none"
  using assms by (simp add: classify_early total_chars_sum)

theorem no_text_is_none_witness:
  "(\<Sum>d\<leftarrow>[Detection [(0, 0), (10, 0), (10, 10), (0, 10)] ''ab'' 1]. int (length (det_text d)))
     < MIN_TOTAL_CHARS defaults
   \<and> classify_text_type defaults [Detection [(0, 0), (10, 0), (10, 10), (0, 10)] ''ab'' 1] 10 10
       = Inr none
   \<and> classify_text_type defaults [] 10 10 = Inr none"
proof -
  have small:
    "(\<Sum>d\<leftarrow>[Detection [(0, 0), (10, 0), (10, 10), (0, 10)] ''ab'' 1]. int (length (det_text d)))
       < MIN_TOTAL_CHARS defaults"
    by (simp add: defaults_def)
  from no_text_is_none[of _ defaults 10 10, OF disjI2, OF small]
    no_text_is_none[of "[]" defaults 10 10, OF disjI1, OF refl] small
  show ?thesis by simp
qed

text \<open>
  C9. The two-way classifier answers "text present" exactly when the lengths of the
  recognised texts add up to at least \<open>min_total_chars\<close>; two result lists with
  the same texts, whatever their regions and scores, get the same answer.
\<close>

theorem has_text_counts_chars_only:
  "(has_text_easyocr min_total_chars results
      \<longleftrightarrow> min_total_chars \<le> (\<Sum>d\<leftarrow>results. int (length (det_text d))))
   \<and> (map det_text results = map det_text results'
        \<longrightarrow> has_text_easyocr min_total_chars results = has_text_easyocr min_total_chars results')"
proof -
  have sum_texts: "total_chars ds = (\<Sum>t\<leftarrow>map det_text ds. int (length t))" for ds
    by (simp add: total_chars_sum comp_def)
  show ?thesis
    by (simp add: has_text_easyocr_def sum_texts) (simp add: comp_def)
qed

theorem has_text_counts_chars_only_witness:
  "map det_text [Detection [(0, 0), (1, 0), (1, 1), (0, 1)] ''abc'' 1]
     = map det_text [Detection [(0, 0), (90, 0), (90, 90), (0, 90)] ''abc'' 0]
   \<and> has_text_easyocr 3 [Detection [(0, 0), (1, 0), (1, 1), (0, 1)] ''abc'' 1]
   \<and> has_text_easyocr 3 [Detection [(0, 0), (90, 0), (90, 90), (0, 90)] ''abc'' 0]"
  using has_text_counts_chars_only[of 3 "[Detection [(0, 0), (1, 0), (1, 1), (0, 1)] ''abc'' 1]"
      "[Detection [(0, 0), (90, 0), (90, 90), (0, 90)] ''abc'' 0]"]
  by auto

text \<open>
  C3. For a non-empty detection list with at least \<open>MIN_TOTAL_CHARS\<close> characters
  whose metrics are computed, any one of the four meme conditions gives \<open>meme\<close>. The
  overlay ceilings play no part: the meme test comes first, so a list inside both
  tests' ranges is \<open>meme\<close>, as the witness shows on 25 characters in a box of one
  hundredth of the image.
\<close>

theorem meme_test_first:
  assumes "results \<noteq> []"
    and "MIN_TOTAL_CHARS T \<le> total_chars results"
    and "compute_metrics w h results = Inr (a, total_area_ratio)"
    and "max_region_area_ratio a \<ge> MEME_MIN_REGION_AREA_RATIO T
         \<or> max_region_width_ratio a \<ge> MEME_MIN_WIDTH_RATIO T
         \<or> total_area_ratio \<ge> MEME_MIN_TOTAL_AREA_RATIO T
         \<or> total_chars results \<ge> MEME_MIN_TOTAL_CHARS T"
  shows "classify_text_type T results w h = Inr meme"
proof -
  from assms(4) have "meme_test T (total_chars results) a total_area_ratio"
    by (simp add: meme_test_def)
  with classify_on_metrics[OF assms(1,2,3)] show ?thesis by simp
qed

theorem meme_test_first_witness:
  "compute_metrics 10 10
     [Detection [(0, 0), (1, 0), (1, 1), (0, 1)] ''abcdefghijklmnopqrstuvwxy'' 1]
     = Inr (\<lparr> total_text_area = 1, max_region_area_ratio = 1 / 100,
              max_region_width_ratio = 1 / 10 \<rparr>, 1 / 100)
   \<and> total_chars [Detection [(0, 0), (1, 0), (1, 1), (0, 1)] ''abcdefghijklmnopqrstuvwxy'' 1]
       \<ge> MEME_MIN_TOTAL_CHARS defaults
   \<and> overlay_test defaults
       \<lparr> total_text_area = 1, max_region_area_ratio = 1 / 100,
         max_region_width_ratio = 1 / 10 \<rparr> (1 / 100)
   \<and> classify_text_type defaults
       [Detection [(0, 0), (1, 0), (1, 1), (0, 1)] ''abcdefghijklmnopqrstuvwxy'' 1] 10 10
       = Inr meme"
proof -
  let ?rs = "[Detection [(0, 0), (1, 0), (1, 1), (0, 1)] ''abcdefghijklmnopqrstuvwxy'' 1]"
  let ?a = "\<lparr> total_text_area = 1, max_region_area_ratio = 1 / 100,
              max_region_width_ratio = 1 / 10 \<rparr>"
  have ne: "?rs \<noteq> []" by simp
  have ch: "total_chars ?rs = 25" by (simp add: total_chars_def)
  have cm: "compute_metrics 10 10 ?rs = Inr (?a, 1 / 100)"
    by (simp add: compute_metrics_def zero_aggregates_def loop_body_def region_box_def
        py_min_def py_max_def py_truediv_def)
  have lo: "MIN_TOTAL_CHARS defaults \<le> total_chars ?rs" by (simp add: ch defaults_def)
  have hi: "MEME_MIN_TOTAL_CHARS defaults \<le> total_chars ?rs" by (simp add: ch defaults_def)
  have ov: "overlay_test defaults ?a (1 / 100)" by (simp add: overlay_test_def defaults_def)
  from meme_test_first[OF ne lo cm disjI2, OF disjI2, OF disjI2, OF hi] cm hi ov
  show ?thesis by simp
qed

text \<open>
  C4. For a non-empty detection list with at least \<open>MIN_TOTAL_CHARS\<close> characters
  whose metrics are computed and meet none of the four meme conditions, the verdict is
  \<open>overlay\<close> exactly when both overlay ceilings hold, \<open>meme\<close> otherwise, and
  never \<open>none\<close>.
\<close>

theorem overlay_or_fallback:
  assumes "results \<noteq> []"
    and "MIN_TOTAL_CHARS T \<le> total_chars results"
    and "compute_metrics w h results = Inr (a, total_area_ratio)"
    and "\<not> (max_region_area_ratio a \<ge> MEME_MIN_REGION_AREA_RATIO T
            \<or> max_region_width_ratio a \<ge> MEME_MIN_WIDTH_RATIO T
            \<or> total_area_ratio \<ge> MEME_MIN_TOTAL_AREA_RATIO T
            \<or> total_chars results \<ge> MEME_MIN_TOTAL_CHARS T)"
  shows "(classify_text_type T results w h = Inr overlay
            \<longleftrightarrow> total_area_ratio \<le> MAX_OVERLAY_TOTAL_AREA_RATIO T
                \<and> max_region_area_ratio a \<le> MAX_OVERLAY_REGION_AREA_RATIO T)
         \<and> (\<not> (total_area_ratio \<le> MAX_OVERLAY_TOTAL_AREA_RATIO T
                \<and> max_region_area_ratio a \<le> MAX_OVERLAY_REGION_AREA_RATIO T)
              \<longrightarrow> classify_text_type T results w h = Inr meme)
         \<and> classify_text_type T results w h \<noteq> Inr none"
proof -
  from assms(4) have "\<not> meme_test T (total_chars results) a total_area_ratio"
    by (simp add: meme_test_def)
  with classify_on_metrics[OF assms(1,2,3)]
  have "classify_text_type T results w h
          = Inr (if overlay_test T a total_area_ratio then overlay else meme)"
    by simp
  then show ?thesis by (simp add: overlay_test_def)
qed

theorem overlay_or_fallback_witness:
  "compute_metrics 10 10 [Detection [(0, 0), (1, 0), (1, 1), (0, 1)] ''abc'' 1]
     = Inr (\<lparr> total_text_area = 1, max_region_area_ratio = 1 / 100,
              max_region_width_ratio = 1 / 10 \<rparr>, 1 / 100)
   \<and> classify_text_type defaults [Detection [(0, 0), (1, 0), (1, 1), (0, 1)] ''abc'' 1] 10 10
       = Inr overlay
   \<and> compute_metrics 100 100
       [Detection [(0, 0), (20, 0), (20, 20), (0, 20)] ''a'' 1,
        Detection [(30, 0), (50, 0), (50, 20), (30, 20)] ''b'' 1,
        Detection [(60, 0), (80, 0), (80, 20), (60, 20)] ''c'' 1]
     = Inr (\<lparr> total_text_area = 1200, max_region_area_ratio = 4 / 100,
              max_region_width_ratio = 2 / 10 \<rparr>, 12 / 100)
   \<and> classify_text_type defaults
       [Detection [(0, 0), (20, 0), (20, 20), (0, 20)] ''a'' 1,
        Detection [(30, 0), (50, 0), (50, 20), (30, 20)] ''b'' 1,
        Detection [(60, 0), (80, 0), (80, 20), (60, 20)] ''c'' 1] 100 100
       = Inr meme"
proof -
  let ?r1 = "[Detection [(0, 0), (1, 0), (1, 1), (0, 1)] ''abc'' 1]"
  let ?a1 = "\<lparr> total_text_area = 1, max_region_area_ratio = 1 / 100,
               max_region_width_ratio = 1 / 10 \<rparr>"
  let ?r2 = "[Detection [(0, 0), (20, 0), (20, 20), (0, 20)] ''a'' 1,
              Detection [(30, 0), (50, 0), (50, 20), (30, 20)] ''b'' 1,
              Detection [(60, 0), (80, 0), (80, 20), (60, 20)] ''c'' 1]"
  let ?a2 = "\<lparr> total_text_area = 1200, max_region_area_ratio = 4 / 100,
               max_region_width_ratio = 2 / 10 \<rparr>"
  have ne1: "?r1 \<noteq> []" and ne2: "?r2 \<noteq> []" by simp_all
  have ch1: "total_chars ?r1 = 3" and ch2: "total_chars ?r2 = 3"
    by (simp_all add: total_chars_def)
  have cm1: "compute_metrics 10 10 ?r1 = Inr (?a1, 1 / 100)"
    by (simp add: compute_metrics_def zero_aggregates_def loop_body_def region_box_def
        py_min_def py_max_def py_truediv_def)
  have cm2: "compute_metrics 100 100 ?r2 = Inr (?a2, 12 / 100)"
    by (simp add: compute_metrics_def zero_aggregates_def loop_body_def region_box_def
        py_min_def py_max_def py_truediv_def)
  have lo1: "MIN_TOTAL_CHARS defaults \<le> total_chars ?r1"
    and lo2: "MIN_TOTAL_CHARS defaults \<le> total_chars ?r2"
    by (simp_all add: ch1 ch2 defaults_def)
  have nm1: "\<not> (max_region_area_ratio ?a1 \<ge> MEME_MIN_REGION_AREA_RATIO defaults
            \<or> max_region_width_ratio ?a1 \<ge> MEME_MIN_WIDTH_RATIO defaults
            \<or> 1 / 100 \<ge> MEME_MIN_TOTAL_AREA_RATIO defaults
            \<or> total_chars ?r1 \<ge> MEME_MIN_TOTAL_CHARS defaults)"
    by (simp add: ch1 defaults_def)
  have nm2: "\<not> (max_region_area_ratio ?a2 \<ge> MEME_MIN_REGION_AREA_RATIO defaults
            \<or> max_region_width_ratio ?a2 \<ge> MEME_MIN_WIDTH_RATIO defaults
            \<or> 12 / 100 \<ge> MEME_MIN_TOTAL_AREA_RATIO defaults
            \<or> total_chars ?r2 \<ge> MEME_MIN_TOTAL_CHARS defaults)"
    by (simp add: ch2 defaults_def)
  have v1: "classify_text_type defaults ?r1 10 10 = Inr overlay"
    using overlay_or_fallback[OF ne1 lo1 cm1 nm1] by (simp add: defaults_def)
  have v2: "classify_text_type defaults ?r2 100 100 = Inr meme"
    using overlay_or_fallback[OF ne2 lo2 cm2 nm2] by (simp add: defaults_def)
  from cm1 v1 cm2 v2 show ?thesis by (intro conjI)
qed

text \<open>
  C5. A detection whose box is computed with a non-positive area leaves the three
  loop variables as they were and raises nothing, wherever it stands in the list: the
  metrics of the list, and whether they are computed at all, are those of the list
  without it. Its text is still counted in \<open>total_chars\<close>.
\<close>

theorem degenerate_region_excluded:
  assumes "region_box d = Inr (width, height, area)" and "area \<le> 0"
  shows "loop_body w h a d = Inr a
         \<and> compute_metrics w h (before @ d # after) = compute_metrics w h (before @ after)
         \<and> total_chars (before @ d # after)
             = total_chars (before @ after) + int (length (det_text d))"
proof -
  have step: "loop_body w h b d = Inr b" for b
    by (rule loop_body_degenerate[OF assms])
  have "region_loop w h (before @ d # after) b = region_loop w h (before @ after) b" for b
    by (cases "region_loop w h before b") (simp_all add: region_loop_append step)
  then have "compute_metrics w h (before @ d # after) = compute_metrics w h (before @ after)"
    by (simp add: compute_metrics_def)
  moreover have "total_chars (before @ d # after)
      = total_chars (before @ after) + int (length (det_text d))"
    by (simp add: total_chars_append total_chars_Cons)
  ultimately show ?thesis using step by simp
qed

theorem degenerate_region_excluded_witness:
  "region_box (Detection [(0, 0), (5, 0), (7, 0), (9, 0)] ''hello'' 1) = Inr (9, 0, 0)
   \<and> compute_metrics 10 10
       [Detection [(0, 0), (1, 0), (1, 1), (0, 1)] ''abc'' 1,
        Detection [(0, 0), (5, 0), (7, 0), (9, 0)] ''hello'' 1]
     = compute_metrics 10 10 [Detection [(0, 0), (1, 0), (1, 1), (0, 1)] ''abc'' 1]
   \<and> total_chars
       [Detection [(0, 0), (1, 0), (1, 1), (0, 1)] ''abc'' 1,
        Detection [(0, 0), (5, 0), (7, 0), (9, 0)] ''hello'' 1]
     = total_chars [Detection [(0, 0), (1, 0), (1, 1), (0, 1)] ''abc'' 1] + 5"
proof -
  have box: "region_box (Detection [(0, 0), (5, 0), (7, 0), (9, 0)] ''hello'' 1) = Inr (9, 0, 0)"
    by (simp add: region_box_def py_min_def py_max_def)
  from degenerate_region_excluded[OF box order_refl,
      of 10 10 _ "[Detection [(0, 0), (1, 0), (1, 1), (0, 1)] ''abc'' 1]" "[]"] box
  show ?thesis by simp
qed

text \<open>
  C1, as the code has it. The claim also promises \<open>meme\<close> for a single character, but
  the character floor is tested first: one detection covering the whole image with the
  text \<open>a\<close> is classified \<open>none\<close>.
\<close>

theorem one_char_is_none_counterexample:
  "region_box (Detection [(0, 0), (10, 0), (10, 10), (0, 10)] ''a'' 1) = Inr (10, 10, 100)
   \<and> 100 / of_nat (10 * 10) \<ge> MEME_MIN_REGION_AREA_RATIO defaults
   \<and> total_chars [Detection [(0, 0), (10, 0), (10, 10), (0, 10)] ''a'' 1] = 1
   \<and> classify_text_type defaults [Detection [(0, 0), (10, 0), (10, 10), (0, 10)] ''a'' 1] 10 10
       = Inr none"
  by (simp add: region_box_def py_min_def py_max_def defaults_def total_chars_def
      classify_text_type_def)

text \<open>
  C1, amended. With positive width and height and the default thresholds, a detection
  list whose detections each have at least one point and which contains a detection
  whose box covers at least \<open>MEME_MIN_REGION_AREA_RATIO\<close> (one tenth) of the image
  area is classified \<open>meme\<close> when its texts have at least \<open>MIN_TOTAL_CHARS\<close> (3)
  characters in total, and \<open>none\<close> when they have fewer.
\<close>

theorem meme_dominance:
  assumes "0 < w" and "0 < h"
    and "\<forall>d'\<in>set results. bbox d' \<noteq> []"
    and "d \<in> set results"
    and "region_box d = Inr (width, height, area)"
    and "area / of_nat (w * h) \<ge> MEME_MIN_REGION_AREA_RATIO defaults"
  shows "(total_chars results \<ge> MIN_TOTAL_CHARS defaults
            \<longrightarrow> classify_text_type defaults results w h = Inr meme)
         \<and> (total_chars results < MIN_TOTAL_CHARS defaults
            \<longrightarrow> classify_text_type defaults results w h = Inr none)"
proof (intro conjI impI)
  assume "total_chars results < MIN_TOTAL_CHARS defaults"
  then show "classify_text_type defaults results w h = Inr none"
    by (simp add: classify_early)
next
  assume ch: "MIN_TOTAL_CHARS defaults \<le> total_chars results"
  from assms(4) have ne: "results \<noteq> []" by auto
  have wh: "(0::rat) < of_nat (w * h)" using assms(1,2) by simp
  have "(0::rat) < MEME_MIN_REGION_AREA_RATIO defaults" by (simp add: defaults_def)
  with assms(6) have "0 < area / of_nat (w * h)" by simp
  with wh have pos: "0 < area" by (simp add: zero_less_divide_iff)
  from region_loop_covers[OF assms(1,2,3,4,5) pos, of zero_aggregates] obtain a where
    rl: "region_loop w h results zero_aggregates = Inr a"
    and big: "area / of_nat (w * h) \<le> max_region_area_ratio a" by blast
  from rl assms(1,2)
  have cm: "compute_metrics w h results = Inr (a, total_text_area a / of_nat (w * h))"
    by (simp add: compute_metrics_def py_truediv_def)
  from assms(6) big have "MEME_MIN_REGION_AREA_RATIO defaults \<le> max_region_area_ratio a"
    by simp
  then have "meme_test defaults (total_chars results) a (total_text_area a / of_nat (w * h))"
    by (simp add: meme_test_def)
  with classify_on_metrics[OF ne ch cm]
  show "classify_text_type defaults results w h = Inr meme" by simp
qed

theorem meme_dominance_witness:
  "region_box (Detection [(0, 0), (5, 0), (5, 2), (0, 2)] ''abc'' 1) = Inr (5, 2, 10)
   \<and> 10 / of_nat (10 * 10) \<ge> MEME_MIN_REGION_AREA_RATIO defaults
   \<and> classify_text_type defaults [Detection [(0, 0), (5, 0), (5, 2), (0, 2)] ''abc'' 1] 10 10
       = Inr meme
   \<and> region_box (Detection [(0, 0), (5, 0), (5, 2), (0, 2)] ''ab'' 1) = Inr (5, 2, 10)
   \<and> classify_text_type defaults [Detection [(0, 0), (5, 0), (5, 2), (0, 2)] ''ab'' 1] 10 10
       = Inr none"
proof -
  let ?d = "Detection [(0, 0), (5, 0), (5, 2), (0, 2)] ''abc'' 1"
  let ?e = "Detection [(0, 0), (5, 0), (5, 2), (0, 2)] ''ab'' 1"
  have w: "(0::nat) < 10" by simp
  have bd: "region_box ?d = Inr (5, 2, 10)" and be: "region_box ?e = Inr (5, 2, 10)"
    by (simp_all add: region_box_def py_min_def py_max_def)
  have pts: "\<forall>d'\<in>set [?d]. bbox d' \<noteq> []" and pte: "\<forall>d'\<in>set [?e]. bbox d' \<noteq> []"
    by simp_all
  have ind: "?d \<in> set [?d]" and ine: "?e \<in> set [?e]" by simp_all
  have cov: "10 / of_nat (10 * 10) \<ge> MEME_MIN_REGION_AREA_RATIO defaults"
    by (simp add: defaults_def)
  have chd: "MIN_TOTAL_CHARS defaults \<le> total_chars [?d]"
    and che: "total_chars [?e] < MIN_TOTAL_CHARS defaults"
    by (simp_all add: total_chars_def defaults_def)
  from meme_dominance[OF w w pts ind bd cov] chd
  have v1: "classify_text_type defaults [?d] 10 10 = Inr meme" by blast
  from meme_dominance[OF w w pte ine be cov] che
  have v2: "classify_text_type defaults [?e] 10 10 = Inr none" by blast
  from bd cov v1 be v2 show ?thesis by (intro conjI)
qed

text \<open>
  C10. With positive width and height and the default thresholds, a detection list
  classified \<open>meme\<close> is still classified \<open>meme\<close> after one more detection with at
  least one point is appended.
\<close>

theorem more_text_stays_meme:
  assumes "0 < w" and "0 < h"
    and "classify_text_type defaults results w h = Inr meme"
    and "bbox d \<noteq> []"
  shows "classify_text_type defaults (results @ [d]) w h = Inr meme"
  using assms by (rule append_keeps_meme)

theorem more_text_stays_meme_witness:
  "classify_text_type defaults [Detection [(0, 0), (5, 0), (5, 2), (0, 2)] ''abc'' 1] 10 10
     = Inr meme
   \<and> classify_text_type defaults
       ([Detection [(0, 0), (5, 0), (5, 2), (0, 2)] ''abc'' 1]
        @ [Detection [(7, 7), (8, 7), (8, 8), (7, 8)] ''x'' 1]) 10 10
     = Inr meme"
proof -
  have w: "(0::nat) < 10" by simp
  have m: "classify_text_type defaults
             [Detection [(0, 0), (5, 0), (5, 2), (0, 2)] ''abc'' 1] 10 10 = Inr meme"
    by (simp add: classify_text_type_def total_chars_def defaults_def compute_metrics_def
        zero_aggregates_def loop_body_def region_box_def py_min_def py_max_def py_truediv_def
        meme_test_def)
  have p: "bbox (Detection [(7, 7), (8, 7), (8, 8), (7, 8)] ''x'' 1) \<noteq> []" by simp
  from more_text_stays_meme[OF w w m p] m show ?thesis by (intro conjI)
qed

text \<open>
  C6, as the code has it. Nothing in \<^verbatim>\<open>classify_text_type\<close> checks the
  thresholds or the dimensions: with negative thresholds it returns a verdict, and on an
  image of width 0 it returns \<open>none\<close> for an empty result list and for two characters.
\<close>

theorem fail_fast_counterexample:
  "classify_text_type
     (defaults\<lparr> MIN_TOTAL_CHARS := - 5, MEME_MIN_REGION_AREA_RATIO := - 1 \<rparr>)
     [Detection [(0, 0), (1, 0), (1, 1), (0, 1)] ''abc'' 1] 10 10 = Inr meme
   \<and> classify_text_type defaults [] 0 10 = Inr none
   \<and> classify_text_type defaults [Detection [(0, 0), (1, 0), (1, 1), (0, 1)] ''ab'' 1] 0 10
       = Inr none"
  by (simp add: classify_text_type_def total_chars_def defaults_def compute_metrics_def
      zero_aggregates_def loop_body_def region_box_def py_min_def py_max_def py_truediv_def
      meme_test_def)

text \<open>
  C6, amended. The classifier validates nothing. For detections that each have at
  least one point: with positive width and height it returns a verdict for every
  threshold configuration, negative thresholds included; with a zero width or height it
  returns \<open>none\<close> when the result list is empty or has fewer than
  \<open>MIN_TOTAL_CHARS\<close> characters, and otherwise fails on the division by the zero
  image area.
\<close>

theorem no_validation:
  assumes "\<forall>d\<in>set results. bbox d \<noteq> []"
  shows "(0 < w \<and> 0 < h \<longrightarrow> (\<exists>v. classify_text_type T results w h = Inr v))
         \<and> (w = 0 \<or> h = 0 \<longrightarrow>
              classify_text_type T results w h =
                (if results = [] \<or> total_chars results < MIN_TOTAL_CHARS T then Inr none
                 else Inl ZeroDivisionError))"
proof (intro conjI impI)
  assume "0 < w \<and> 0 < h"
  then have w: "0 < w" and h: "0 < h" by simp_all
  from compute_metrics_total[OF w h assms] obtain a r where
    "compute_metrics w h results = Inr (a, r)" by blast
  then show "\<exists>v. classify_text_type T results w h = Inr v"
    by (simp add: classify_text_type_def)
next
  assume "w = 0 \<or> h = 0"
  then have "w * h = 0" by simp
  from compute_metrics_zero_area[OF this assms]
  show "classify_text_type T results w h =
          (if results = [] \<or> total_chars results < MIN_TOTAL_CHARS T then Inr none
           else Inl ZeroDivisionError)"
    by (simp add: classify_text_type_def)
qed

theorem no_validation_witness:
  "bbox (Detection [(0, 0), (1, 0), (1, 1), (0, 1)] ''abc'' 1) \<noteq> []
   \<and> (\<exists>v. classify_text_type (defaults\<lparr> MEME_MIN_WIDTH_RATIO := - 1 \<rparr>)
             [Detection [(0, 0), (1, 0), (1, 1), (0, 1)] ''abc'' 1] 10 10 = Inr v)
   \<and> classify_text_type defaults [Detection [(0, 0), (1, 0), (1, 1), (0, 1)] ''abc'' 1] 0 10
       = Inl ZeroDivisionError"
proof -
  let ?rs = "[Detection [(0, 0), (1, 0), (1, 1), (0, 1)] ''abc'' 1]"
  have pts: "\<forall>d\<in>set ?rs. bbox d \<noteq> []" by simp
  have ch: "\<not> total_chars ?rs < MIN_TOTAL_CHARS defaults"
    by (simp add: total_chars_def defaults_def)
  from no_validation[OF pts, of 10 10 "defaults\<lparr> MEME_MIN_WIDTH_RATIO := - 1 \<rparr>"]
  have v: "\<exists>v. classify_text_type (defaults\<lparr> MEME_MIN_WIDTH_RATIO := - 1 \<rparr>) ?rs 10 10 = Inr v"
    by simp
  from no_validation[OF pts, of 0 10 defaults] ch
  have z: "classify_text_type defaults ?rs 0 10 = Inl ZeroDivisionError" by simp
  have "bbox (Detection [(0, 0), (1, 0), (1, 1), (0, 1)] ''abc'' 1) \<noteq> []" by simp
  from this v z show ?thesis by (intro conjI)
qed

section \<open>The drivers' directories\<close>

lemma copy_if_absent_present: "n \<in> dom dir \<Longrightarrow> copy_if_absent dir n c = Inr dir"
  by (auto simp: copy_if_absent_def)


lemma copy_if_absent_raises: "n \<notin> dom dir \<Longrightarrow> copy_if_absent dir n None = Inl OSError"
  by (auto simp: copy_if_absent_def split: option.splits)

lemma copy_if_absent_result:
  assumes "copy_if_absent dir n c = Inr dir'"
  shows "n \<in> dom dir' \<and> dir \<subseteq>\<^sub>m dir'"
  using assms
  by (auto simp: copy_if_absent_def map_le_def split: option.splits)

lemma absorbed_copy:
  assumes "copy_if_absent dir n c = Inr dir'" and "dir' \<subseteq>\<^sub>m D"
  shows "copy_if_absent D n c = Inr D"
proof -
  from assms(2) have "dom dir' \<subseteq> dom D" by (rule map_le_implies_dom_le)
  with copy_if_absent_result[OF assms(1)] have "n \<in> dom D" by blast
  then show ?thesis by (rule copy_if_absent_present)
qed

text \<open>The three ways a step of the three-way driver ends without an exception.\<close>

lemma main_step_Inr:
  assumes "main_step T s p = Inr s1"
  shows "(\<exists>dir. copy_if_absent (DST_DIR s) (name p) (contents p) = Inr dir
            \<and> s1 = s\<lparr> DST_DIR := dir, num_kept := num_kept s + 1 \<rparr>
            \<and> (\<exists>img v. opened p = Some img \<and> classify_opened T img = Inr v
                  \<and> (v = none \<or> v = overlay)))
         \<or> (\<exists>dir. copy_if_absent (REJECTED_DIR s) (name p) (contents p) = Inr dir
            \<and> s1 = s\<lparr> REJECTED_DIR := dir, num_rejected := num_rejected s + 1 \<rparr>
            \<and> (opened p = None
                \<or> (\<exists>img. opened p = Some img \<and> classify_opened T img = Inr meme)))"
proof (cases "opened p")
  case None
  with assms show ?thesis by (auto simp: main_step_def bind_err_eq_Inr)
next
  case (Some img)
  with assms obtain v where v: "classify_opened T img = Inr v"
    by (auto simp: main_step_def bind_err_eq_Inr)
  show ?thesis
  proof (cases "v = none \<or> v = overlay")
    case True
    with assms Some v show ?thesis by (auto simp: main_step_def bind_err_eq_Inr)
  next
    case False
    then have "v = meme" by (cases v) simp_all
    with assms Some v show ?thesis by (auto simp: main_step_def bind_err_eq_Inr)
  qed
qed

lemma main_step_keeps:
  assumes "main_step T s p = Inr s'"
  shows "DST_DIR s \<subseteq>\<^sub>m DST_DIR s' \<and> REJECTED_DIR s \<subseteq>\<^sub>m REJECTED_DIR s'"
  using main_step_Inr[OF assms] by (auto dest: copy_if_absent_result)

lemma main_loop_keeps:
  assumes "main_loop T ps s = Inr s'"
  shows "DST_DIR s \<subseteq>\<^sub>m DST_DIR s' \<and> REJECTED_DIR s \<subseteq>\<^sub>m REJECTED_DIR s'"
  using assms
proof (induction ps arbitrary: s)
  case Nil
  then show ?case by simp
next
  case (Cons p ps)
  from Cons.prems obtain s1 where
    s1: "main_step T s p = Inr s1" and rest: "main_loop T ps s1 = Inr s'"
    by (auto simp: bind_err_eq_Inr)
  from main_step_keeps[OF s1] Cons.IH[OF rest] show ?case
    by (blast intro: map_le_trans)
qed

lemma main_step_replay:
  assumes "main_step T s p = Inr s1"
    and "DST_DIR s1 \<subseteq>\<^sub>m D" and "REJECTED_DIR s1 \<subseteq>\<^sub>m R"
  shows "main_step T
           \<lparr> DST_DIR = D, REJECTED_DIR = R, num_kept = num_kept s, num_rejected = num_rejected s \<rparr> p
         = Inr \<lparr> DST_DIR = D, REJECTED_DIR = R,
                 num_kept = num_kept s1, num_rejected = num_rejected s1 \<rparr>"
proof -
  from main_step_Inr[OF assms(1)] consider
    (kept) dir img v where "copy_if_absent (DST_DIR s) (name p) (contents p) = Inr dir"
      "s1 = s\<lparr> DST_DIR := dir, num_kept := num_kept s + 1 \<rparr>"
      "opened p = Some img" "classify_opened T img = Inr v" "v = none \<or> v = overlay"
  | (failed) dir where "copy_if_absent (REJECTED_DIR s) (name p) (contents p) = Inr dir"
      "s1 = s\<lparr> REJECTED_DIR := dir, num_rejected := num_rejected s + 1 \<rparr>"
      "opened p = None"
  | (rejected) dir img where "copy_if_absent (REJECTED_DIR s) (name p) (contents p) = Inr dir"
      "s1 = s\<lparr> REJECTED_DIR := dir, num_rejected := num_rejected s + 1 \<rparr>"
      "opened p = Some img" "classify_opened T img = Inr meme"
    by blast
  then show ?thesis
  proof cases
    case kept
    from kept(2) assms(2) have "dir \<subseteq>\<^sub>m D" by simp
    from absorbed_copy[OF kept(1) this] kept(2,3,4,5) show ?thesis
      by (auto simp: main_step_def)
  next
    case failed
    from failed(2) assms(3) have "dir \<subseteq>\<^sub>m R" by simp
    from absorbed_copy[OF failed(1) this] failed(2,3) show ?thesis
      by (simp add: main_step_def)
  next
    case rejected
    from rejected(2) assms(3) have "dir \<subseteq>\<^sub>m R" by simp
    from absorbed_copy[OF rejected(1) this] rejected(2,3,4) show ?thesis
      by (simp add: main_step_def)
  qed
qed

lemma main_loop_replay:
  assumes "main_loop T ps s = Inr s'"
    and "DST_DIR s' \<subseteq>\<^sub>m D" and "REJECTED_DIR s' \<subseteq>\<^sub>m R"
  shows "main_loop T ps
           \<lparr> DST_DIR = D, REJECTED_DIR = R, num_kept = num_kept s, num_rejected = num_rejected s \<rparr>
         = Inr \<lparr> DST_DIR = D, REJECTED_DIR = R,
                 num_kept = num_kept s', num_rejected = num_rejected s' \<rparr>"
  using assms(1)
proof (induction ps arbitrary: s)
  case Nil
  then show ?case by simp
next
  case (Cons p ps)
  from Cons.prems obtain s1 where
    s1: "main_step T s p = Inr s1" and rest: "main_loop T ps s1 = Inr s'"
    by (auto simp: bind_err_eq_Inr)
  from main_loop_keeps[OF rest] assms(2,3)
  have "DST_DIR s1 \<subseteq>\<^sub>m D" and "REJECTED_DIR s1 \<subseteq>\<^sub>m R"
    by (blast intro: map_le_trans)+
  from main_step_replay[OF s1 this] Cons.IH[OF rest] show ?case by simp
qed

text \<open>The same for the two-way driver.\<close>

lemma main_step2_Inr:
  assumes "main_step2 m s p = Inr s1"
  shows "s1 = s\<lparr> num_rejected2 := num_rejected2 s + 1 \<rparr>
           \<and> (opened p = None \<or> (\<exists>img. opened p = Some img \<and> has_text_opened m img = Inr True))
         \<or> (\<exists>dir img. copy_if_absent (DST_DIR2 s) (name p) (contents p) = Inr dir
              \<and> s1 = s\<lparr> DST_DIR2 := dir, num_kept2 := num_kept2 s + 1 \<rparr>
              \<and> opened p = Some img \<and> has_text_opened m img = Inr False)"
proof (cases "opened p")
  case None
  with assms show ?thesis by (auto simp: main_step2_def)
next
  case (Some img)
  with assms obtain t where t: "has_text_opened m img = Inr t"
    by (auto simp: main_step2_def bind_err_eq_Inr)
  with assms Some show ?thesis
    by (cases t) (auto simp: main_step2_def bind_err_eq_Inr)
qed

lemma main_step2_keeps:
  assumes "main_step2 m s p = Inr s'"
  shows "DST_DIR2 s \<subseteq>\<^sub>m DST_DIR2 s'"
  using main_step2_Inr[OF assms] by (auto dest: copy_if_absent_result)

lemma main_loop2_keeps:
  assumes "main_loop2 m ps s = Inr s'"
  shows "DST_DIR2 s \<subseteq>\<^sub>m DST_DIR2 s'"
  using assms
proof (induction ps arbitrary: s)
  case Nil
  then show ?case by simp
next
  case (Cons p ps)
  from Cons.prems obtain s1 where
    s1: "main_step2 m s p = Inr s1" and rest: "main_loop2 m ps s1 = Inr s'"
    by (auto simp: bind_err_eq_Inr)
  from main_step2_keeps[OF s1] Cons.IH[OF rest] show ?case by (rule map_le_trans)
qed

lemma main_step2_replay:
  assumes "main_step2 m s p = Inr s1" and "DST_DIR2 s1 \<subseteq>\<^sub>m D"
  shows "main_step2 m \<lparr> DST_DIR2 = D, num_kept2 = num_kept2 s, num_rejected2 = num_rejected2 s \<rparr> p
         = Inr \<lparr> DST_DIR2 = D, num_kept2 = num_kept2 s1, num_rejected2 = num_rejected2 s1 \<rparr>"
proof -
  from main_step2_Inr[OF assms(1)] consider
    (failed) "s1 = s\<lparr> num_rejected2 := num_rejected2 s + 1 \<rparr>" "opened p = None"
  | (found) img where "s1 = s\<lparr> num_rejected2 := num_rejected2 s + 1 \<rparr>"
      "opened p = Some img" "has_text_opened m img = Inr True"
  | (kept) dir img where "copy_if_absent (DST_DIR2 s) (name p) (contents p) = Inr dir"
      "s1 = s\<lparr> DST_DIR2 := dir, num_kept2 := num_kept2 s + 1 \<rparr>"
      "opened p = Some img" "has_text_opened m img = Inr False"
    by (elim disjE conjE exE) fast+
  then show ?thesis
  proof cases
    case failed
    then show ?thesis by (simp add: main_step2_def)
  next
    case found
    then show ?thesis by (simp add: main_step2_def)
  next
    case kept
    from kept(2) assms(2) have "dir \<subseteq>\<^sub>m D" by simp
    from absorbed_copy[OF kept(1) this] kept(2,3,4) show ?thesis
      by (simp add: main_step2_def)
  qed
qed

lemma main_loop2_replay:
  assumes "main_loop2 m ps s = Inr s'" and "DST_DIR2 s' \<subseteq>\<^sub>m D"
  shows "main_loop2 m ps \<lparr> DST_DIR2 = D, num_kept2 = num_kept2 s, num_rejected2 = num_rejected2 s \<rparr>
         = Inr \<lparr> DST_DIR2 = D, num_kept2 = num_kept2 s', num_rejected2 = num_rejected2 s' \<rparr>"
  using assms(1)
proof (induction ps arbitrary: s)
  case Nil
  then show ?case by simp
next
  case (Cons p ps)
  from Cons.prems obtain s1 where
    s1: "main_step2 m s p = Inr s1" and rest: "main_loop2 m ps s1 = Inr s'"
    by (auto simp: bind_err_eq_Inr)
  from main_loop2_keeps[OF rest] assms(2) have "DST_DIR2 s1 \<subseteq>\<^sub>m D" by (rule map_le_trans)
  from main_step2_replay[OF s1 this] Cons.IH[OF rest] show ?case by simp
qed

text \<open>
  The exceptions no \<^verbatim>\<open>try\<close> catches end the run at the file that raises them: the
  copy of a file that can be neither opened nor read, made in the \<^verbatim>\<open>except\<close>
  branch of the three-way driver, and in both drivers the decoding of an image that
  opened.
\<close>

lemma open_failure_copy_raises:
  assumes "opened p = None" and "name p \<notin> dom (REJECTED_DIR s)" and "contents p = None"
  shows "main_loop T (p # ps) s = Inl OSError"
  using assms by (simp add: main_step_def copy_if_absent_raises)

lemma undecodable_image_raises:
  assumes "opened p = Some Undecodable"
  shows "main_loop T (p # ps) s = Inl OSError" and "main_loop2 m (p # ps) s2 = Inl OSError"
  using assms
  by (simp_all add: main_step_def main_step2_def classify_opened_def has_text_opened_def)

section \<open>Claims about the drivers\<close>




text \<open>
  C8. When a run of either driver has finished, a second run over the same paths, from
  the directories the first run left, ends with the same kept and rejected counts and
  leaves those directories as they were; and every file found in a destination
  directory before a run is there with the same contents after it.
\<close>

theorem rerun_idempotent:
  "(main T all_paths dst rej = Inr s
      \<longrightarrow> main T all_paths (DST_DIR s) (REJECTED_DIR s) = Inr s
          \<and> dst \<subseteq>\<^sub>m DST_DIR s \<and> rej \<subseteq>\<^sub>m REJECTED_DIR s)
   \<and> (main2 m all_paths dst2 = Inr s2
      \<longrightarrow> main2 m all_paths (DST_DIR2 s2) = Inr s2 \<and> dst2 \<subseteq>\<^sub>m DST_DIR2 s2)"
proof (intro conjI impI)
  assume run: "main T all_paths dst rej = Inr s"
  let ?s0 = "\<lparr> DST_DIR = dst, REJECTED_DIR = rej, num_kept = 0, num_rejected = 0 \<rparr>"
  from run have loop: "main_loop T all_paths ?s0 = Inr s" by (simp add: main_def)
  from main_loop_replay[OF loop map_le_refl map_le_refl]
  show "main T all_paths (DST_DIR s) (REJECTED_DIR s) = Inr s" by (simp add: main_def)
  from main_loop_keeps[OF loop] show "dst \<subseteq>\<^sub>m DST_DIR s" and "rej \<subseteq>\<^sub>m REJECTED_DIR s"
    by simp_all
next
  assume run: "main2 m all_paths dst2 = Inr s2"
  let ?s0 = "\<lparr> DST_DIR2 = dst2, num_kept2 = 0, num_rejected2 = 0 \<rparr>"
  from run have loop: "main_loop2 m all_paths ?s0 = Inr s2" by (simp add: main2_def)
  from main_loop2_replay[OF loop map_le_refl]
  show "main2 m all_paths (DST_DIR2 s2) = Inr s2" by (simp add: main2_def)
  from main_loop2_keeps[OF loop] show "dst2 \<subseteq>\<^sub>m DST_DIR2 s2" by simp
qed

theorem rerun_idempotent_witness:
  "main defaults
     [\<lparr> name = ''a.png'', contents = Some (7 :: nat),
        opened = Some (Decoded [Detection [(0, 0), (9, 0), (9, 9), (0, 9)] ''caption'' 1] 10 10) \<rparr>,
      \<lparr> name = ''b.png'', contents = Some 8, opened = Some (Decoded [] 10 10) \<rparr>,
      \<lparr> name = ''c.png'', contents = Some 9, opened = None \<rparr>]
     [''b.png'' \<mapsto> 5] Map.empty
     = Inr \<lparr> DST_DIR = [''b.png'' \<mapsto> 5], REJECTED_DIR = [''a.png'' \<mapsto> 7, ''c.png'' \<mapsto> 9],
             num_kept = 1, num_rejected = 2 \<rparr>
   \<and> main defaults
       [\<lparr> name = ''a.png'', contents = Some (7 :: nat),
          opened = Some (Decoded [Detection [(0, 0), (9, 0), (9, 9), (0, 9)] ''caption'' 1] 10 10) \<rparr>,
        \<lparr> name = ''b.png'', contents = Some 8, opened = Some (Decoded [] 10 10) \<rparr>,
        \<lparr> name = ''c.png'', contents = Some 9, opened = None \<rparr>]
       [''b.png'' \<mapsto> 5] [''a.png'' \<mapsto> 7, ''c.png'' \<mapsto> 9]
     = Inr \<lparr> DST_DIR = [''b.png'' \<mapsto> 5], REJECTED_DIR = [''a.png'' \<mapsto> 7, ''c.png'' \<mapsto> 9],
             num_kept = 1, num_rejected = 2 \<rparr>
   \<and> main2 3
       [\<lparr> name = ''a.png'', contents = Some (7 :: nat),
          opened = Some (Decoded [Detection [(0, 0), (9, 0), (9, 9), (0, 9)] ''caption'' 1] 10 10) \<rparr>,
        \<lparr> name = ''b.png'', contents = Some 8, opened = Some (Decoded [] 10 10) \<rparr>,
        \<lparr> name = ''c.png'', contents = Some 9, opened = None \<rparr>]
       Map.empty
     = Inr \<lparr> DST_DIR2 = [''b.png'' \<mapsto> 8], num_kept2 = 1, num_rejected2 = 2 \<rparr>
   \<and> main2 3
       [\<lparr> name = ''a.png'', contents = Some (7 :: nat),
          opened = Some (Decoded [Detection [(0, 0), (9, 0), (9, 9), (0, 9)] ''caption'' 1] 10 10) \<rparr>,
        \<lparr> name = ''b.png'', contents = Some 8, opened = Some (Decoded [] 10 10) \<rparr>,
        \<lparr> name = ''c.png'', contents = Some 9, opened = None \<rparr>]
       [''b.png'' \<mapsto> 8]
     = Inr \<lparr> DST_DIR2 = [''b.png'' \<mapsto> 8], num_kept2 = 1, num_rejected2 = 2 \<rparr>"
proof -
  let ?ps = "[\<lparr> name = ''a.png'', contents = Some (7 :: nat),
        opened = Some (Decoded [Detection [(0, 0), (9, 0), (9, 9), (0, 9)] ''caption'' 1] 10 10) \<rparr>,
      \<lparr> name = ''b.png'', contents = Some 8, opened = Some (Decoded [] 10 10) \<rparr>,
      \<lparr> name = ''c.png'', contents = Some 9, opened = None \<rparr>]"
  let ?s = "\<lparr> DST_DIR = [''b.png'' \<mapsto> 5::nat],
             REJECTED_DIR = [''a.png'' \<mapsto> 7, ''c.png'' \<mapsto> 9],
             num_kept = 1, num_rejected = 2 \<rparr>"
  let ?s2 = "\<lparr> DST_DIR2 = [''b.png'' \<mapsto> 8::nat], num_kept2 = 1, num_rejected2 = 2 \<rparr>"
  have run: "main defaults ?ps [''b.png'' \<mapsto> 5] Map.empty = Inr ?s"
    by (simp add: main_def main_step_def copy_if_absent_def classify_opened_def
        classify_text_type_def total_chars_def defaults_def compute_metrics_def
        zero_aggregates_def loop_body_def region_box_def py_min_def py_max_def py_truediv_def
        meme_test_def)
  have run2: "main2 3 ?ps Map.empty = Inr ?s2"
    by (simp add: main2_def main_step2_def copy_if_absent_def has_text_opened_def
        has_text_easyocr_def total_chars_def)
  note again = rerun_idempotent[where T = defaults and all_paths = ?ps
      and dst = "[''b.png'' \<mapsto> 5]" and rej = Map.empty and s = ?s and m = 3
      and ?dst2.0 = Map.empty and ?s2.0 = ?s2]
  from again run have r1: "main defaults ?ps (DST_DIR ?s) (REJECTED_DIR ?s) = Inr ?s" by blast
  from again run2 have r2: "main2 3 ?ps (DST_DIR2 ?s2) = Inr ?s2" by blast
  from run r1 run2 r2 show ?thesis by simp
qed

end
